theory Spec2Isabelle
  imports Complex_Main
begin

section \<open>Analytical image views: the data model\<close>

text \<open>
  The four filters of \<^verbatim>\<open>imageAnalysisViews.ts\<close> take a browser \<^verbatim>\<open>ImageData\<close>: a width, a
  height and a \<^verbatim>\<open>Uint8ClampedArray\<close> of \<open>4 * width * height\<close> samples, row-major, four
  samples (R, G, B, A) per pixel. A sample is a natural number, at most 255 once it has been
  stored. A JavaScript number is idealised as a real: every intermediate value of the Sobel
  kernel is an integer, so nothing is lost there, while the texture, lighting and colour
  kernels round in IEEE double arithmetic where the model computes exactly.
\<close>

record ImageData =
  width :: nat
  height :: nat
  data :: "nat list"

datatype error = IndexSizeError | CanvasContextError

text \<open>
  \<^verbatim>\<open>new ImageData(width, height)\<close>: a zero-filled raster; the constructor throws
  \<^verbatim>\<open>IndexSizeError\<close> when either dimension is zero.
\<close>

definition new_ImageData :: "nat \<Rightarrow> nat \<Rightarrow> error + ImageData" where
  "new_ImageData w h =
     (if w = 0 \<or> h = 0 then Inl IndexSizeError
      else Inr \<lparr>width = w, height = h, data = replicate (4 * w * h) 0\<rparr>)"

text \<open>
  Every \<^verbatim>\<open>ImageData\<close> the browser hands out has nonzero dimensions and a sample array of
  exactly \<open>4 * width * height\<close> entries.
\<close>

definition valid_image :: "ImageData \<Rightarrow> bool" where
  "valid_image img \<longleftrightarrow>
     0 < width img \<and> 0 < height img \<and> length (data img) = 4 * width img * height img"

text \<open>
  Storing a number into a \<^verbatim>\<open>Uint8ClampedArray\<close> converts it with the ECMAScript operation
  \<^verbatim>\<open>ToUint8Clamp\<close>: clamp to \<open>[0, 255]\<close>, then round to the nearest integer, ties to even.
\<close>

definition ToUint8Clamp :: "real \<Rightarrow> nat" where
  "ToUint8Clamp v =
     (if v \<le> 0 then 0
      else if 255 \<le> v then 255
      else let f = \<lfloor>v\<rfloor> in
        if of_int f + 1 / 2 < v then nat (f + 1)
        else if v < of_int f + 1 / 2 then nat f
        else if even f then nat f else nat (f + 1))"

text \<open>Reading \<^verbatim>\<open>data[i]\<close> yields the sample as a number.\<close>

definition px :: "nat list \<Rightarrow> nat \<Rightarrow> real" where
  "px d i = real (d ! i)"

text \<open>The four samples of the pixel in column \<open>x\<close> of row \<open>y\<close>.\<close>

definition pixel_at :: "ImageData \<Rightarrow> nat \<Rightarrow> nat \<Rightarrow> nat \<times> nat \<times> nat \<times> nat" where
  "pixel_at img x y =
     (let idx = (y * width img + x) * 4
      in (data img ! idx, data img ! (idx + 1), data img ! (idx + 2), data img ! (idx + 3)))"

section \<open>Edge filter\<close>

text \<open>
  The Sobel gradients of \<^verbatim>\<open>generateEdgeDetection\<close>, read from the red sample (offset 0) of the
  eight neighbours. The loops start at 1, so \<open>y - 1\<close> and \<open>x - 1\<close> never truncate.
\<close>

definition edge_gx :: "ImageData \<Rightarrow> nat \<Rightarrow> nat \<Rightarrow> real" where
  "edge_gx img y x =
     (let d = data img; w = width img in
        px d (((y - 1) * w + (x + 1)) * 4) - px d (((y - 1) * w + (x - 1)) * 4) +
        2 * (px d ((y * w + (x + 1)) * 4) - px d ((y * w + (x - 1)) * 4)) +
        px d (((y + 1) * w + (x + 1)) * 4) - px d (((y + 1) * w + (x - 1)) * 4))"

definition edge_gy :: "ImageData \<Rightarrow> nat \<Rightarrow> nat \<Rightarrow> real" where
  "edge_gy img y x =
     (let d = data img; w = width img in
        px d (((y - 1) * w + (x - 1)) * 4) + 2 * px d (((y - 1) * w + x) * 4) +
        px d (((y - 1) * w + (x + 1)) * 4) -
        px d (((y + 1) * w + (x - 1)) * 4) - 2 * px d (((y + 1) * w + x) * 4) -
        px d (((y + 1) * w + (x + 1)) * 4))"

definition edge_value :: "ImageData \<Rightarrow> nat \<Rightarrow> nat \<Rightarrow> real" where
  "edge_value img y x =
     (let gx = edge_gx img y x; gy = edge_gy img y x;
          magnitude = sqrt (gx * gx + gy * gy)
      in min 255 magnitude)"

definition edge_body :: "ImageData \<Rightarrow> nat \<Rightarrow> nat \<Rightarrow> nat list \<Rightarrow> nat list" where
  "edge_body img y x out =
     (let idx = (y * width img + x) * 4; v = edge_value img y x
      in out[idx := ToUint8Clamp v, idx + 1 := ToUint8Clamp v, idx + 2 := ToUint8Clamp v,
             idx + 3 := ToUint8Clamp 255])"

text \<open>
  \<^verbatim>\<open>for (let y = 1; y < height - 1; y++) for (let x = 1; x < width - 1; x++)\<close>. For a
  dimension of 0 the JavaScript bound is \<open>-1\<close> and the truncated bound here is 0: the
  range is empty either way.
\<close>

definition generateEdgeDetection :: "ImageData \<Rightarrow> error + ImageData" where
  "generateEdgeDetection imageData =
     (case new_ImageData (width imageData) (height imageData) of
        Inl e \<Rightarrow> Inl e
      | Inr outputData \<Rightarrow>
          Inr (outputData\<lparr>data :=
            fold (\<lambda>y. fold (\<lambda>x. edge_body imageData y x) [1..<width imageData - 1])
              [1..<height imageData - 1] (data outputData)\<rparr>))"

section \<open>Texture filter\<close>

definition windowSize :: nat where
  "windowSize = 5"

definition halfWindow :: nat where
  "halfWindow = windowSize div 2"

text \<open>The gray value \<open>(R + G + B) / 3\<close> of the window sample at offset \<open>(dx, dy)\<close>.\<close>

definition texture_gray :: "ImageData \<Rightarrow> nat \<Rightarrow> nat \<Rightarrow> int \<Rightarrow> int \<Rightarrow> real" where
  "texture_gray img y x dy dx =
     (let d = data img;
          idx = (nat (int y + dy) * width img + nat (int x + dx)) * 4
      in (px d idx + px d (idx + 1) + px d (idx + 2)) / 3)"

text \<open>The first pair of window loops accumulates \<open>sum\<close> and \<open>count\<close>.\<close>

definition texture_sum_count :: "ImageData \<Rightarrow> nat \<Rightarrow> nat \<Rightarrow> real \<times> nat" where
  "texture_sum_count img y x =
     fold (\<lambda>dy. fold (\<lambda>dx (sum, count). (sum + texture_gray img y x dy dx, count + 1))
                  [- int halfWindow..int halfWindow])
       [- int halfWindow..int halfWindow] (0, 0)"

text \<open>The second pair accumulates the squared deviations from \<open>mean\<close>.\<close>

definition texture_sq_dev :: "ImageData \<Rightarrow> nat \<Rightarrow> nat \<Rightarrow> real \<Rightarrow> real" where
  "texture_sq_dev img y x mean =
     fold (\<lambda>dy. fold (\<lambda>dx variance. variance + (texture_gray img y x dy dx - mean) ^ 2)
                  [- int halfWindow..int halfWindow])
       [- int halfWindow..int halfWindow] 0"

definition textureValue :: "ImageData \<Rightarrow> nat \<Rightarrow> nat \<Rightarrow> real" where
  "textureValue img y x =
     (let (sum, count) = texture_sum_count img y x;
          mean = sum / real count;
          variance = texture_sq_dev img y x mean / real count
      in min 255 (sqrt variance * 3))"

definition texture_body :: "ImageData \<Rightarrow> nat \<Rightarrow> nat \<Rightarrow> nat list \<Rightarrow> nat list" where
  "texture_body img y x out =
     (let t = textureValue img y x; outputIdx = (y * width img + x) * 4
      in out[outputIdx := ToUint8Clamp t, outputIdx + 1 := ToUint8Clamp (t * 0.8),
             outputIdx + 2 := ToUint8Clamp (t * 0.6), outputIdx + 3 := ToUint8Clamp 255])"

definition generateTextureAnalysis :: "ImageData \<Rightarrow> error + ImageData" where
  "generateTextureAnalysis imageData =
     (case new_ImageData (width imageData) (height imageData) of
        Inl e \<Rightarrow> Inl e
      | Inr outputData \<Rightarrow>
          Inr (outputData\<lparr>data :=
            fold (\<lambda>y. fold (\<lambda>x. texture_body imageData y x)
                         [halfWindow..<width imageData - halfWindow])
              [halfWindow..<height imageData - halfWindow] (data outputData)\<rparr>))"

section \<open>Lighting filter\<close>

text \<open>\<open>0.299 R + 0.587 G + 0.114 B\<close> of the pixel whose first sample is at \<open>idx\<close>.\<close>

definition luminance :: "nat list \<Rightarrow> nat \<Rightarrow> real" where
  "luminance d idx = 0.299 * px d idx + 0.587 * px d (idx + 1) + 0.114 * px d (idx + 2)"

definition enhancedValue :: "ImageData \<Rightarrow> nat \<Rightarrow> nat \<Rightarrow> real" where
  "enhancedValue img y x =
     (let d = data img; w = width img;
          leftLum = luminance d ((y * w + (x - 1)) * 4);
          rightLum = luminance d ((y * w + (x + 1)) * 4);
          topLum = luminance d (((y - 1) * w + x) * 4);
          bottomLum = luminance d (((y + 1) * w + x) * 4);
          horizontalGrad = \<bar>rightLum - leftLum\<bar>;
          verticalGrad = \<bar>bottomLum - topLum\<bar>;
          gradientMagnitude =
            sqrt (horizontalGrad * horizontalGrad + verticalGrad * verticalGrad)
      in min 255 (gradientMagnitude * 2))"

definition lighting_body :: "ImageData \<Rightarrow> nat \<Rightarrow> nat \<Rightarrow> nat list \<Rightarrow> nat list" where
  "lighting_body img y x out =
     (let idx = (y * width img + x) * 4;
          lum = luminance (data img) idx;
          e = enhancedValue img y x
      in out[idx := ToUint8Clamp (lum * 0.5 + e * 0.5), idx + 1 := ToUint8Clamp e,
             idx + 2 := ToUint8Clamp (lum * 0.3), idx + 3 := ToUint8Clamp 255])"

definition generateLightingAnalysis :: "ImageData \<Rightarrow> error + ImageData" where
  "generateLightingAnalysis imageData =
     (case new_ImageData (width imageData) (height imageData) of
        Inl e \<Rightarrow> Inl e
      | Inr outputData \<Rightarrow>
          Inr (outputData\<lparr>data :=
            fold (\<lambda>y. fold (\<lambda>x. lighting_body imageData y x) [1..<width imageData - 1])
              [1..<height imageData - 1] (data outputData)\<rparr>))"

section \<open>Colour filter\<close>

definition saturation :: "real \<Rightarrow> real \<Rightarrow> real \<Rightarrow> real" where
  "saturation r g b =
     (let mx = max (max r g) b; mn = min (min r g) b
      in if mx = 0 then 0 else (mx - mn) / mx)"

definition colorUniformity :: "real \<Rightarrow> real \<Rightarrow> real \<Rightarrow> real" where
  "colorUniformity r g b = 1 - \<bar>r - g\<bar> / 255 - \<bar>g - b\<bar> / 255 - \<bar>r - b\<bar> / 255"

definition artificialness :: "real \<Rightarrow> real \<Rightarrow> real \<Rightarrow> real" where
  "artificialness r g b =
     (if saturation r g b > 0.8 \<or> colorUniformity r g b > 0.9 then 255
      else saturation r g b * 255)"

definition color_body :: "ImageData \<Rightarrow> nat \<Rightarrow> nat \<Rightarrow> nat list \<Rightarrow> nat list" where
  "color_body img y x out =
     (let idx = (y * width img + x) * 4;
          r = px (data img) idx; g = px (data img) (idx + 1); b = px (data img) (idx + 2);
          a = artificialness r g b
      in out[idx := ToUint8Clamp (r * 0.3 + a * 0.7), idx + 1 := ToUint8Clamp (g * 0.3 + a * 0.5),
             idx + 2 := ToUint8Clamp (b * 0.3 + a * 0.3), idx + 3 := ToUint8Clamp 255])"

definition generateColorDistribution :: "ImageData \<Rightarrow> error + ImageData" where
  "generateColorDistribution imageData =
     (case new_ImageData (width imageData) (height imageData) of
        Inl e \<Rightarrow> Inl e
      | Inr outputData \<Rightarrow>
          Inr (outputData\<lparr>data :=
            fold (\<lambda>y. fold (\<lambda>x. color_body imageData y x) [0..<width imageData])
              [0..<height imageData] (data outputData)\<rparr>))"

section \<open>View aggregator\<close>

text \<open>
  \<^verbatim>\<open>generateAnalyticalViews\<close> returns a promise. The four views are kept as rasters: the
  PNG encoding of \<^verbatim>\<open>canvas.toDataURL()\<close> is opaque here.
\<close>

record views =
  edgeDetection :: ImageData
  textureAnalysis :: ImageData
  lightingAnalysis :: ImageData
  colorDistribution :: ImageData

datatype 'a promise = Pending | Fulfilled 'a | Rejected error

text \<open>
  After \<^verbatim>\<open>img.src = imageUrl\<close> the browser fires exactly one of two events on the image:
  \<^verbatim>\<open>load\<close>, with the decoded raster that \<^verbatim>\<open>getImageData\<close> then reads back, or
  \<^verbatim>\<open>error\<close>, when the bytes cannot be decoded.
\<close>

datatype image_event = LoadEvent ImageData | ErrorEvent

text \<open>
  The \<^verbatim>\<open>img.onload\<close> handler. It resolves the promise with the four views; an exception
  thrown inside the handler escapes to the event loop and settles nothing.
\<close>

definition onload :: "ImageData \<Rightarrow> views promise" where
  "onload imageData =
     (case generateEdgeDetection imageData of Inl _ \<Rightarrow> Pending | Inr e \<Rightarrow>
     (case generateTextureAnalysis imageData of Inl _ \<Rightarrow> Pending | Inr t \<Rightarrow>
     (case generateLightingAnalysis imageData of Inl _ \<Rightarrow> Pending | Inr l \<Rightarrow>
     (case generateColorDistribution imageData of Inl _ \<Rightarrow> Pending | Inr c \<Rightarrow>
        Fulfilled \<lparr>edgeDetection = e, textureAnalysis = t,
                   lightingAnalysis = l, colorDistribution = c\<rparr>))))"

text \<open>
  \<open>has_ctx\<close> says whether \<^verbatim>\<open>canvas.getContext('2d')\<close> returned a context. The function is
  \<^verbatim>\<open>async\<close>, so its \<^verbatim>\<open>throw\<close> rejects the returned promise. The promise executor takes
  \<^verbatim>\<open>resolve\<close> only and registers \<^verbatim>\<open>onload\<close> only: no handler runs on an \<^verbatim>\<open>error\<close> event.
\<close>

definition generateAnalyticalViews :: "bool \<Rightarrow> image_event \<Rightarrow> views promise" where
  "generateAnalyticalViews has_ctx ev =
     (if \<not> has_ctx then Rejected CanvasContextError
      else case ev of LoadEvent imageData \<Rightarrow> onload imageData | ErrorEvent \<Rightarrow> Pending)"

section \<open>Auxiliary notions for the proofs\<close>

text \<open>
  Every loop body stores the four samples of one pixel; \<open>write4\<close> is that store and
  \<open>grid\<close> the raster the two nested loops leave behind.
\<close>

definition write4 :: "nat \<Rightarrow> nat \<Rightarrow> nat \<Rightarrow> nat \<times> nat \<times> nat \<times> nat \<Rightarrow> nat list \<Rightarrow> nat list" where
  "write4 w y x p out =
     (case p of (r, g, b, a) \<Rightarrow>
        out[(y * w + x) * 4 := r, (y * w + x) * 4 + 1 := g,
            (y * w + x) * 4 + 2 := b, (y * w + x) * 4 + 3 := a])"

definition chan :: "nat \<times> nat \<times> nat \<times> nat \<Rightarrow> nat \<Rightarrow> nat" where
  "chan p c = (case p of (r, g, b, a) \<Rightarrow> [r, g, b, a] ! c)"

definition edge_pixel :: "ImageData \<Rightarrow> nat \<Rightarrow> nat \<Rightarrow> nat \<times> nat \<times> nat \<times> nat" where
  "edge_pixel img y x =
     (ToUint8Clamp (edge_value img y x), ToUint8Clamp (edge_value img y x),
      ToUint8Clamp (edge_value img y x), 255)"

definition texture_pixel :: "ImageData \<Rightarrow> nat \<Rightarrow> nat \<Rightarrow> nat \<times> nat \<times> nat \<times> nat" where
  "texture_pixel img y x =
     (ToUint8Clamp (textureValue img y x), ToUint8Clamp (textureValue img y x * 0.8),
      ToUint8Clamp (textureValue img y x * 0.6), 255)"

definition lighting_pixel :: "ImageData \<Rightarrow> nat \<Rightarrow> nat \<Rightarrow> nat \<times> nat \<times> nat \<times> nat" where
  "lighting_pixel img y x =
     (let lum = luminance (data img) ((y * width img + x) * 4); e = enhancedValue img y x
      in (ToUint8Clamp (lum * 0.5 + e * 0.5), ToUint8Clamp e, ToUint8Clamp (lum * 0.3), 255))"

definition color_pixel :: "ImageData \<Rightarrow> nat \<Rightarrow> nat \<Rightarrow> nat \<times> nat \<times> nat \<times> nat" where
  "color_pixel img y x =
     (let idx = (y * width img + x) * 4;
          r = px (data img) idx; g = px (data img) (idx + 1); b = px (data img) (idx + 2);
          a = artificialness r g b
      in (ToUint8Clamp (r * 0.3 + a * 0.7), ToUint8Clamp (g * 0.3 + a * 0.5),
          ToUint8Clamp (b * 0.3 + a * 0.3), 255))"

definition grid :: "nat \<Rightarrow> nat \<Rightarrow> nat \<Rightarrow> nat \<Rightarrow> nat \<Rightarrow> nat \<Rightarrow>
    (nat \<Rightarrow> nat \<Rightarrow> nat \<times> nat \<times> nat \<times> nat) \<Rightarrow> ImageData" where
  "grid w h xlo xhi ylo yhi k =
     \<lparr>width = w, height = h,
      data = fold (\<lambda>y. fold (\<lambda>x. write4 w y x (k y x)) [xlo..<xhi]) [ylo..<yhi]
               (replicate (4 * w * h) 0)\<rparr>"

section \<open>Notions of the specification and example rasters\<close>

definition alpha :: "nat \<times> nat \<times> nat \<times> nat \<Rightarrow> nat" where
  "alpha p = (case p of (r, g, b, a) \<Rightarrow> a)"

definition blank :: "nat \<Rightarrow> nat \<Rightarrow> ImageData" where
  "blank w h = \<lparr>width = w, height = h, data = replicate (4 * w * h) 0\<rparr>"


definition one_pixel :: ImageData where
  "one_pixel = \<lparr>width = 1, height = 1, data = [9, 9, 9, 255]\<rparr>"

definition edge_example :: ImageData where
  "edge_example = \<lparr>width = 3, height = 3, data =
     [0, 0, 0, 255,  0, 0, 0, 255,  1, 0, 0, 255,
      0, 0, 0, 255,  0, 0, 0, 255,  0, 0, 0, 255,
      0, 0, 0, 255,  0, 0, 0, 255,  0, 0, 0, 255]\<rparr>"




section \<open>The nested loops, pixel by pixel\<close>

lemma window_offsets: "[- int halfWindow..int halfWindow] = [-2,-1,0,1,2]"
  by (simp add: halfWindow_def windowSize_def upto_rec1)

lemma idx_inj:
  fixes c c' :: nat
  assumes "x < w" "x' < w" "c < 4" "c' < 4"
  shows "((y * w + x) * 4 + c = (y' * w + x') * 4 + c') \<longleftrightarrow> (y = y' \<and> x = x' \<and> c = c')"
proof
  assume eq: "(y * w + x) * 4 + c = (y' * w + x') * 4 + c'"
  have "((y * w + x) * 4 + c) mod 4 = c" "((y' * w + x') * 4 + c') mod 4 = c'"
    using assms by (simp_all del: distrib_right_numeral)
  with eq have c: "c = c'" by metis
  with eq have e2: "y * w + x = y' * w + x'" by simp
  have "(y * w + x) mod w = x" "(y' * w + x') mod w = x'"
    using assms by simp_all
  with e2 have x: "x = x'" by metis
  with e2 have "y * w = y' * w" by simp
  with assms have "y = y'" by simp
  with c x show "y = y' \<and> x = x' \<and> c = c'" by simp
qed simp

lemma length_write4 [simp]: "length (write4 w y x p out) = length out"
  by (cases p) (simp add: write4_def)

lemma nth_write4:
  assumes "x < w" "x' < w" "c < 4" "(y * w + x) * 4 + c < length out"
  shows "write4 w y' x' p out ! ((y * w + x) * 4 + c) =
         (if y = y' \<and> x = x' then chan p c else out ! ((y * w + x) * 4 + c))"
proof -
  obtain r g b a where p: "p = (r, g, b, a)" by (cases p) auto
  define i where "i = (y * w + x) * 4 + c"
  define j where "j = (y' * w + x') * 4"
  have len: "i < length out" using assms(4) by (simp only: i_def)
  have w4: "write4 w y' x' p out = out[j := r, j + 1 := g, j + 2 := b, j + 3 := a]"
    by (simp only: write4_def p j_def prod.case)
  have inj: "\<And>c'. c' < 4 \<Longrightarrow> (i = j + c') \<longleftrightarrow> (y = y' \<and> x = x' \<and> c = c')"
    unfolding i_def j_def using idx_inj [OF assms(1) assms(2) assms(3)] by blast
  have lhs: "write4 w y' x' p out ! ((y * w + x) * 4 + c) =
             out[j := r, j + 1 := g, j + 2 := b, j + 3 := a] ! i"
    by (simp only: w4 i_def)
  have ch: "chan p c = [r, g, b, a] ! c"
    by (simp only: chan_def p prod.case)
  show ?thesis
  proof (cases "y = y' \<and> x = x'")
    case True
    have ij: "i = j + c" using True by (simp only: i_def j_def)
    have cs: "c = 0 \<or> c = 1 \<or> c = 2 \<or> c = 3" using assms(3) by arith
    have jl: "j + c < length out" using len ij by simp
    have "out[j := r, j + 1 := g, j + 2 := b, j + 3 := a] ! (j + c) = [r, g, b, a] ! c"
      using cs jl by (elim disjE) simp_all
    then have "out[j := r, j + 1 := g, j + 2 := b, j + 3 := a] ! i = chan p c"
      by (simp only: ij ch)
    with lhs True show ?thesis by (simp only: if_True simp_thms)
  next
    case False
    have n0: "i \<noteq> j" using inj [of 0] False by auto
    have n1: "i \<noteq> j + 1" using inj [of 1] False by auto
    have n2: "i \<noteq> j + 2" using inj [of 2] False by auto
    have n3: "i \<noteq> j + 3" using inj [of 3] False by auto
    have "out[j := r, j + 1 := g, j + 2 := b, j + 3 := a] ! i = out ! i"
      using n0 n1 n2 n3 by simp
    with lhs False show ?thesis by (simp only: i_def if_False)
  qed
qed

lemma length_fold_row [simp]:
  "length (fold (\<lambda>x. write4 w y x (k x)) xs out) = length out"
  by (induction xs arbitrary: out) simp_all

lemma nth_fold_row:
  assumes "xhi \<le> w" "x < w" "c < 4" "(y * w + x) * 4 + c < length out"
  shows "fold (\<lambda>x'. write4 w y' x' (k x')) [xlo..<xhi] out ! ((y * w + x) * 4 + c) =
         (if y = y' \<and> xlo \<le> x \<and> x < xhi then chan (k x) c else out ! ((y * w + x) * 4 + c))"
  using assms(1)
proof (induction xhi)
  case 0
  then show ?case by simp
next
  case (Suc n)
  show ?case
  proof (cases "xlo \<le> n")
    case True
    have n: "n < w" "n \<le> w" using Suc.prems by simp_all
    show ?thesis
      using True Suc.IH [OF n(2)] assms(2-4) n(1)
      by (auto simp del: distrib_right_numeral simp: nth_write4)
  next
    case False
    then show ?thesis by simp
  qed
qed

lemma length_fold_grid [simp]:
  "length (fold (\<lambda>y. fold (\<lambda>x. write4 w y x (k y x)) xs) ys out) = length out"
  by (induction ys arbitrary: out) simp_all

lemma nth_fold_grid:
  assumes "xhi \<le> w" "x < w" "c < 4" "(y * w + x) * 4 + c < length out"
  shows "fold (\<lambda>y'. fold (\<lambda>x'. write4 w y' x' (k y' x')) [xlo..<xhi]) [ylo..<yhi] out
           ! ((y * w + x) * 4 + c) =
         (if ylo \<le> y \<and> y < yhi \<and> xlo \<le> x \<and> x < xhi then chan (k y x) c
          else out ! ((y * w + x) * 4 + c))"
proof (induction yhi)
  case 0
  then show ?case by simp
next
  case (Suc n)
  show ?case
  proof (cases "ylo \<le> n")
    case True
    then show ?thesis
      using Suc.IH assms
      by (auto simp del: distrib_right_numeral simp: nth_fold_row)
  next
    case False
    then show ?thesis by simp
  qed
qed

lemma ToUint8Clamp_255 [simp]: "ToUint8Clamp 255 = 255"
  by (simp add: ToUint8Clamp_def)

lemma ToUint8Clamp_le: "ToUint8Clamp v \<le> 255"
  unfolding ToUint8Clamp_def Let_def
  by (auto simp: nat_le_iff) (linarith+)?

lemma edge_body_write4: "edge_body img y = (\<lambda>x. write4 (width img) y x (edge_pixel img y x))"
  by (intro ext) (simp add: edge_body_def write4_def edge_pixel_def Let_def)

lemma texture_body_write4: "texture_body img y = (\<lambda>x. write4 (width img) y x (texture_pixel img y x))"
  by (intro ext) (simp add: texture_body_def write4_def texture_pixel_def Let_def)

lemma lighting_body_write4: "lighting_body img y = (\<lambda>x. write4 (width img) y x (lighting_pixel img y x))"
  by (intro ext) (simp add: lighting_body_def write4_def lighting_pixel_def Let_def)

lemma color_body_write4: "color_body img y = (\<lambda>x. write4 (width img) y x (color_pixel img y x))"
  by (intro ext) (simp add: color_body_def write4_def color_pixel_def Let_def)

lemma idx_bound:
  assumes "x < w" "y < h" "c < 4"
  shows "(y * w + x) * 4 + c < 4 * w * (h::nat)"
proof -
  have "y * w + x < Suc y * w" using assms(1) by simp
  also have "\<dots> \<le> h * w" using assms(2) by (simp only: Suc_le_eq [symmetric] mult_le_mono1)
  finally have "y * w + x + 1 \<le> h * w" by simp
  then have "(y * w + x + 1) * 4 \<le> h * w * 4" by (simp only: mult_le_mono1)
  then show ?thesis using assms(3) by (simp add: algebra_simps)
qed

lemma grid_dims [simp]:
  "width (grid w h xlo xhi ylo yhi k) = w" "height (grid w h xlo xhi ylo yhi k) = h"
  "length (data (grid w h xlo xhi ylo yhi k)) = 4 * w * h"
  by (simp_all add: grid_def)

lemma grid_sample:
  assumes "xhi \<le> w" "x < w" "y < h" "c < 4"
  shows "data (grid w h xlo xhi ylo yhi k) ! ((y * w + x) * 4 + c) =
         (if ylo \<le> y \<and> y < yhi \<and> xlo \<le> x \<and> x < xhi then chan (k y x) c else 0)"
proof -
  have b: "(y * w + x) * 4 + c < 4 * w * h" using assms(2-4) by (rule idx_bound)
  then have "(y * w + x) * 4 + c < length (replicate (4 * w * h) (0::nat))" by simp
  from nth_fold_grid [OF assms(1) assms(2) assms(4) this] b
  show ?thesis by (simp add: grid_def)
qed

lemma grid_pixel:
  assumes "xhi \<le> w" "x < w" "y < h"
  shows "pixel_at (grid w h xlo xhi ylo yhi k) x y =
         (if ylo \<le> y \<and> y < yhi \<and> xlo \<le> x \<and> x < xhi then k y x else (0, 0, 0, 0))"
proof -
  let ?g = "grid w h xlo xhi ylo yhi k"
  have s: "\<And>c. c < 4 \<Longrightarrow> data ?g ! ((y * w + x) * 4 + c) =
         (if ylo \<le> y \<and> y < yhi \<and> xlo \<le> x \<and> x < xhi then chan (k y x) c else 0)"
    using assms by (rule grid_sample)
  obtain r g b a where k: "k y x = (r, g, b, a)" by (cases "k y x") auto
  have p: "pixel_at ?g x y = (data ?g ! ((y * w + x) * 4 + 0), data ?g ! ((y * w + x) * 4 + 1),
       data ?g ! ((y * w + x) * 4 + 2), data ?g ! ((y * w + x) * 4 + 3))"
    by (simp add: pixel_at_def Let_def del: distrib_right_numeral)
  have "pixel_at ?g x y =
        (if ylo \<le> y \<and> y < yhi \<and> xlo \<le> x \<and> x < xhi
         then (chan (k y x) 0, chan (k y x) 1, chan (k y x) 2, chan (k y x) 3) else (0, 0, 0, 0))"
    by (simp only: p s [of 0] s [of 1] s [of 2] s [of 3]) simp
  then show ?thesis
    by (simp add: k chan_def)
qed

lemma edge_Inr:
  "generateEdgeDetection img = Inr out \<longleftrightarrow>
     0 < width img \<and> 0 < height img \<and>
     out = grid (width img) (height img) 1 (width img - 1) 1 (height img - 1) (edge_pixel img)"
  by (auto simp: generateEdgeDetection_def new_ImageData_def grid_def edge_body_write4)

lemma texture_Inr:
  "generateTextureAnalysis img = Inr out \<longleftrightarrow>
     0 < width img \<and> 0 < height img \<and>
     out = grid (width img) (height img) halfWindow (width img - halfWindow)
             halfWindow (height img - halfWindow) (texture_pixel img)"
  by (auto simp: generateTextureAnalysis_def new_ImageData_def grid_def texture_body_write4)

lemma lighting_Inr:
  "generateLightingAnalysis img = Inr out \<longleftrightarrow>
     0 < width img \<and> 0 < height img \<and>
     out = grid (width img) (height img) 1 (width img - 1) 1 (height img - 1) (lighting_pixel img)"
  by (auto simp: generateLightingAnalysis_def new_ImageData_def grid_def lighting_body_write4)

lemma color_Inr:
  "generateColorDistribution img = Inr out \<longleftrightarrow>
     0 < width img \<and> 0 < height img \<and>
     out = grid (width img) (height img) 0 (width img) 0 (height img) (color_pixel img)"
  by (auto simp: generateColorDistribution_def new_ImageData_def grid_def color_body_write4)

section \<open>Degenerate loops and the example rasters\<close>

lemma grid_blank:
  assumes "xhi \<le> xlo \<or> yhi \<le> ylo"
  shows "grid w h xlo xhi ylo yhi k = blank w h"
proof -
  have "fold (\<lambda>y. fold (\<lambda>x. write4 w y x (k y x)) []) ys out = out" for ys and out :: "nat list"
    by (induction ys) simp_all
  then show ?thesis using assms by (auto simp: grid_def blank_def)
qed







lemma halfWindow_2 [simp]: "halfWindow = 2"
  by (simp add: halfWindow_def windowSize_def)

lemma alpha_simp [simp]: "alpha (r, g, b, a) = a"
  by (simp add: alpha_def)

lemma one_pixel_valid: "valid_image one_pixel"
  by (simp add: valid_image_def one_pixel_def)



lemma blank_pixel:
  assumes "x < w" "y < h"
  shows "pixel_at (blank w h) x y = (0, 0, 0, 0)"
proof -
  have "blank w h = grid w h 0 0 0 0 (\<lambda>y x. (0, 0, 0, 0))"
    by (simp add: grid_blank)
  then show ?thesis using grid_pixel [of 0 w x y h 0 0 0] assms by simp
qed

section \<open>The claims\<close>

text \<open>
  C8. Each of the four filters, run on a raster the browser can hand out, returns a raster
  whose width and height are those of the input.
\<close>

theorem output_dimensions:
  assumes "valid_image img"
  shows "(\<exists>out. generateEdgeDetection img = Inr out \<and> width out = width img \<and> height out = height img) \<and>
         (\<exists>out. generateTextureAnalysis img = Inr out \<and> width out = width img \<and> height out = height img) \<and>
         (\<exists>out. generateLightingAnalysis img = Inr out \<and> width out = width img \<and> height out = height img) \<and>
         (\<exists>out. generateColorDistribution img = Inr out \<and> width out = width img \<and> height out = height img)"
  using assms by (simp add: valid_image_def edge_Inr texture_Inr lighting_Inr color_Inr)

theorem output_dimensions_witness:
  "valid_image edge_example \<and>
   (\<exists>out. generateEdgeDetection edge_example = Inr out \<and> width out = 3 \<and> height out = 3) \<and>
   (\<exists>out. generateTextureAnalysis edge_example = Inr out \<and> width out = 3 \<and> height out = 3) \<and>
   (\<exists>out. generateLightingAnalysis edge_example = Inr out \<and> width out = 3 \<and> height out = 3) \<and>
   (\<exists>out. generateColorDistribution edge_example = Inr out \<and> width out = 3 \<and> height out = 3)"
proof -
  have v: "valid_image edge_example" by (simp add: valid_image_def edge_example_def)
  have w: "width edge_example = 3" "height edge_example = 3" by (simp_all add: edge_example_def)
  show ?thesis using v output_dimensions [OF v] by (simp only: w simp_thms)
qed


text \<open>
  C9. A raster whose width or height is less than twice a filter's border radius (1 for the
  edge and lighting filters, \<open>halfWindow\<close> for the texture filter) has no pixel inside the
  loop bounds: the filter returns, and what it returns is the zero-initialised raster. The
  colour filter excludes no border ring, so no raster is degenerate for it.
\<close>

theorem degenerate_image_blank:
  assumes "valid_image img"
  shows "(width img < 2 * 1 \<or> height img < 2 * 1 \<longrightarrow>
            generateEdgeDetection img = Inr (blank (width img) (height img))) \<and>
         (width img < 2 * halfWindow \<or> height img < 2 * halfWindow \<longrightarrow>
            generateTextureAnalysis img = Inr (blank (width img) (height img))) \<and>
         (width img < 2 * 1 \<or> height img < 2 * 1 \<longrightarrow>
            generateLightingAnalysis img = Inr (blank (width img) (height img)))"
proof -
  have pos: "0 < width img" "0 < height img" using assms by (simp_all add: valid_image_def)
  have e: "generateEdgeDetection img = Inr (blank (width img) (height img))"
    if "width img < 2 * 1 \<or> height img < 2 * 1"
  proof -
    have "width img - 1 \<le> 1 \<or> height img - 1 \<le> 1" using that by arith
    from grid_blank [OF this] show ?thesis using pos by (simp add: edge_Inr)
  qed
  have t: "generateTextureAnalysis img = Inr (blank (width img) (height img))"
    if "width img < 2 * halfWindow \<or> height img < 2 * halfWindow"
  proof -
    have "width img - halfWindow \<le> halfWindow \<or> height img - halfWindow \<le> halfWindow"
      using that by arith
    from grid_blank [OF this] show ?thesis using pos by (simp add: texture_Inr)
  qed
  have l: "generateLightingAnalysis img = Inr (blank (width img) (height img))"
    if "width img < 2 * 1 \<or> height img < 2 * 1"
  proof -
    have "width img - 1 \<le> 1 \<or> height img - 1 \<le> 1" using that by arith
    from grid_blank [OF this] show ?thesis using pos by (simp add: lighting_Inr)
  qed
  from e t l show ?thesis by blast
qed

theorem degenerate_image_blank_witness:
  "valid_image one_pixel \<and> width one_pixel < 2 * 1 \<and> width one_pixel < 2 * halfWindow \<and>
   generateEdgeDetection one_pixel = Inr \<lparr>width = 1, height = 1, data = [0, 0, 0, 0]\<rparr> \<and>
   generateTextureAnalysis one_pixel = Inr \<lparr>width = 1, height = 1, data = [0, 0, 0, 0]\<rparr> \<and>
   generateLightingAnalysis one_pixel = Inr \<lparr>width = 1, height = 1, data = [0, 0, 0, 0]\<rparr>"
proof -
  have b: "blank (width one_pixel) (height one_pixel) =
           \<lparr>width = 1, height = 1, data = [0, 0, 0, 0]\<rparr>"
    by (simp add: blank_def one_pixel_def numeral_eq_Suc)
  have w: "width one_pixel < 2 * 1" "width one_pixel < 2 * halfWindow"
    by (simp_all add: one_pixel_def)
  show ?thesis
    using degenerate_image_blank [OF one_pixel_valid] one_pixel_valid w
    by (simp only: b simp_thms)
qed






end
